theory Spec2Isabelle
  imports Main "HOL-Library.Sublist"
begin

section \<open>The page driver\<close>

text \<open>
  \<^verbatim>\<open>main.py\<close> drives a browser page through Playwright. The page is not part of the
  program: what it answers to each driver call is an input of the run. A \<open>page\<close> value
  holds these answers; the program is a function of it that returns its result (or the
  exception it ends with), the page it leaves behind, and the sequence of things it did
  (lines printed, driver calls issued), in order.

  A page answers a call the same way whenever it is asked. The one thing the program does
  that changes the answers is closing the browser (\<open>close_page\<close> below).

  A Python \<open>str\<close> is a \<open>string\<close>, one \<open>char\<close> per code point.
\<close>

text \<open>
  The exceptions a driver call or a Python operation of this program can raise, each with
  its message (\<open>str(e)\<close>). All of them are subclasses of Python's \<open>Exception\<close>, so an
  \<open>except Exception\<close> clause catches every value of this type.
\<close>

datatype exn =
    Error string
  | TimeoutError string
  | TargetClosedError string
  | AssertionError string
  | TypeError string
  | ValueError string

fun str_exn :: "exn \<Rightarrow> string" where
  "str_exn (Error m) = m"
| "str_exn (TimeoutError m) = m"
| "str_exn (TargetClosedError m) = m"
| "str_exn (AssertionError m) = m"
| "str_exn (TypeError m) = m"
| "str_exn (ValueError m) = m"

text \<open>
  Locators: \<open>get_by_role(role, name=..., exact=...)\<close>, \<open>get_by_label(text)\<close> and
  \<open>locator(css)\<close>. Building one never touches the page.
\<close>

datatype locator =
    ByRole string string bool
  | ByLabel string
  | Css string

text \<open>The awaited driver calls of the program; timeouts are in milliseconds.\<close>

datatype call =
    Launch
  | NewPage
  | Goto string
  | IsVisible locator nat
  | WaitFor locator nat
  | Fill locator string
  | Click locator
  | Press string
  | WaitForTimeout nat
  | ExpectVisible locator nat
  | Screenshot string
  | Pause
  | AllLocators locator
  | BrowserClose

text \<open>
  A rendered result card, as the extraction pass reads it: what
  \<open>get_attribute('alt')\<close> on its image answers (an exception, \<open>None\<close> when the image has no
  such attribute, or the text) and what \<open>inner_text()\<close> on its hidden span answers.
\<close>

record card =
  img_alt :: "exn + string option"
  span_text :: "exn + string"

text \<open>
  The page: \<open>url\<close> is \<open>page.url\<close>; \<open>action\<close> says of each call that returns nothing
  whether it completes (\<open>None\<close>) or raises; \<open>visible\<close> is the answer to \<open>is_visible\<close> on a
  locator; \<open>cards\<close> is the answer to \<open>locator(...).all()\<close>, the rendered cards in order.
\<close>

record page =
  url :: string
  action :: "call \<Rightarrow> exn option"
  visible :: "locator \<Rightarrow> exn + bool"
  cards :: "exn + card list"

datatype event =
    Print string
  | PrintNames "string option list"
  | Call call

type_synonym 'a io = "page \<Rightarrow> (exn + 'a) \<times> page \<times> event list"

abbreviation result :: "(exn + 'a) \<times> page \<times> event list \<Rightarrow> exn + 'a" where
  "result x \<equiv> fst x"

abbreviation page_after :: "(exn + 'a) \<times> page \<times> event list \<Rightarrow> page" where
  "page_after x \<equiv> fst (snd x)"

abbreviation events :: "(exn + 'a) \<times> page \<times> event list \<Rightarrow> event list" where
  "events x \<equiv> snd (snd x)"

definition io_return :: "'a \<Rightarrow> 'a io" where
  "io_return x = (\<lambda>p. (Inr x, p, []))"

definition io_raise :: "exn \<Rightarrow> 'a io" where
  "io_raise e = (\<lambda>p. (Inl e, p, []))"

text \<open>Sequencing: an exception of the first part skips the second.\<close>

definition io_bind :: "'a io \<Rightarrow> ('a \<Rightarrow> 'b io) \<Rightarrow> 'b io" where
  "io_bind m f = (\<lambda>p.
     case m p of
       (Inl e, p', t) \<Rightarrow> (Inl e, p', t)
     | (Inr x, p', t) \<Rightarrow> (case f x p' of (r, p'', t') \<Rightarrow> (r, p'', t @ t')))"

definition io_then :: "unit io \<Rightarrow> 'b io \<Rightarrow> 'b io" where
  "io_then m k = io_bind m (\<lambda>_. k)"

text \<open>\<open>try: m except Exception as e: h e\<close>\<close>

definition io_try :: "'a io \<Rightarrow> (exn \<Rightarrow> 'a io) \<Rightarrow> 'a io" where
  "io_try m h = (\<lambda>p.
     case m p of
       (Inl e, p', t) \<Rightarrow> (case h e p' of (r, p'', t') \<Rightarrow> (r, p'', t @ t'))
     | (Inr x, p', t) \<Rightarrow> (Inr x, p', t))"

definition print :: "string \<Rightarrow> unit io" where
  "print s = (\<lambda>p. (Inr (), p, [Print s]))"

definition print_names :: "string option list \<Rightarrow> unit io" where
  "print_names ns = (\<lambda>p. (Inr (), p, [PrintNames ns]))"

text \<open>A driver call without a return value: it completes or raises, as the page says.\<close>

definition perform :: "call \<Rightarrow> unit io" where
  "perform c = (\<lambda>p.
     (case action p c of None \<Rightarrow> Inr () | Some e \<Rightarrow> Inl e, p, [Call c]))"

definition is_visible :: "locator \<Rightarrow> nat \<Rightarrow> bool io" where
  "is_visible l timeout = (\<lambda>p. (visible p l, p, [Call (IsVisible l timeout)]))"

definition page_url :: "string io" where
  "page_url = (\<lambda>p. (Inr (url p), p, []))"

section \<open>Python string operations\<close>

fun startswith :: "string \<Rightarrow> string \<Rightarrow> bool" where
  "startswith [] s = True"
| "startswith (a # as) [] = False"
| "startswith (a # as) (b # bs) = (a = b \<and> startswith as bs)"

text \<open>\<open>sub in s\<close> on two strings: \<open>sub\<close> occurs in \<open>s\<close> as a contiguous run.\<close>

fun str_contains :: "string \<Rightarrow> string \<Rightarrow> bool" where
  "str_contains sub [] = (sub = [])"
| "str_contains sub (c # s) = (startswith sub (c # s) \<or> str_contains sub s)"

section \<open>Session state detection\<close>

text \<open>
  \<open>is_logged_in\<close> (lines 17-53). The body of the \<open>try\<close> either returns \<open>False\<close> or falls
  through; it yields \<open>Some False\<close> for the return and \<open>None\<close> for falling through, and so
  does the handler (\<open>pass\<close>). Python's \<open>or\<close> evaluates its second operand only when the
  first is false.
\<close>

definition sign_in_button :: locator where
  "sign_in_button = ByRole ''button'' ''Sign in'' True"

definition join_now_link :: locator where
  "join_now_link = ByRole ''link'' ''Join now'' False"

definition found_line :: string where
  "found_line = ''INFO: Found '' @ [CHR 0x27] @ ''Sign in'' @ [CHR 0x27] @ '' or ''
                  @ [CHR 0x27] @ ''Join now'' @ [CHR 0x27] @ '' elements. User is logged out.''"

definition is_logged_in :: "bool io" where
  "is_logged_in =
     io_bind page_url (\<lambda>u.
       if str_contains ''/feed'' u then
         io_then (print ''INFO: Currently on the feed page. User is logged in.'')
           (io_return True)
       else
         io_bind
           (io_try
              (io_bind (is_visible sign_in_button 2000) (\<lambda>v1.
               io_bind (if v1 then io_return True else is_visible join_now_link 2000) (\<lambda>v.
                 if v then
                   io_then
                     (print found_line)
                     (io_return (Some False))
                 else io_return None)))
              (\<lambda>e. io_return None))
           (\<lambda>returned.
              case returned of
                Some b \<Rightarrow> io_return b
              | None \<Rightarrow>
                  io_then
                    (print ''INFO: Did not find explicit login prompts, assuming user is logged in.'')
                    (io_return True)))"

section \<open>Login\<close>

text \<open>
  \<open>login\<close> (lines 56-105). The navigation is issued before the \<open>try\<close> statement opens;
  \<open>login_steps\<close> is the body of the \<open>try\<close> and \<open>login_failed\<close> the handler
  (\<open>except Exception as e\<close>), which nothing encloses.
\<close>

definition login_url :: string where
  "login_url = ''https://www.linkedin.com/login''"

definition email_field :: locator where
  "email_field = Css ''#username''"

definition password_field :: locator where
  "password_field = ByLabel ''Password''"

definition messaging_link :: locator where
  "messaging_link = ByRole ''link'' ''Messaging'' False"

definition screenshot_path :: string where
  "screenshot_path = ''login_error.png''"

definition login_steps :: "string \<Rightarrow> string \<Rightarrow> bool io" where
  "login_steps email password =
     io_then (print ''INFO: Locating the email field using its ID...'')
    (io_then (perform (WaitFor email_field 10000))
    (io_then (print (''INFO: Filling out email: '' @ email))
    (io_then (perform (Fill email_field email))
    (io_then (print ''INFO: Locating and filling password field...'')
    (io_then (perform (Fill password_field password))
    (io_then (print (''INFO: Clicking '' @ [CHR 0x27] @ ''Sign in'' @ [CHR 0x27] @ ''...''))
    (io_then (perform (Click sign_in_button))
    (io_then (print ''INFO: Waiting for login confirmation...'')
    (io_then (perform (ExpectVisible messaging_link 60000))
    (io_then (print ''SUCCESS: Login successful!'')
    (io_return True)))))))))))"

definition login_failed :: "exn \<Rightarrow> bool io" where
  "login_failed e =
     io_then (print ''ERROR: Login attempt failed.'')
    (io_then (print ''Check the screenshot and error message below to debug.'')
    (io_then (print (''DEBUG: The specific error was: '' @ str_exn e))
    (io_then (perform (Screenshot screenshot_path))
    (io_then (print (''A screenshot has been saved to '' @ [CHR 0x27] @ screenshot_path @ [CHR 0x27]))
    (io_then (perform Pause)
    (io_return False))))))"

definition login :: "string \<Rightarrow> string \<Rightarrow> bool io" where
  "login email password =
     io_then (print ''INFO: Navigating to LinkedIn login page...'')
    (io_then (perform (Goto login_url))
    (io_try (login_steps email password) login_failed))"

section \<open>Company search\<close>



section \<open>Dispatch\<close>

text \<open>
  \<open>people_message\<close> (lines 121-123). \<open>person\<close> is an entry of the list \<open>people_search\<close>
  returns: a string, or \<open>None\<close>, for which the concatenation raises \<open>TypeError\<close> before
  any click.
\<close>

definition people_message :: "string option \<Rightarrow> unit io" where
  "people_message person =
     (case person of
        None \<Rightarrow>
          io_raise (TypeError (''can only concatenate str (not '' @ [CHR 0x22] @ ''NoneType''
                      @ [CHR 0x22] @ '') to str''))
      | Some s \<Rightarrow> perform (Click (ByRole ''button'' (''Message '' @ s) True)))"

section \<open>People search and the extraction pass\<close>

text \<open>
  The loop of \<open>people_search\<close> (lines 150-161). \<open>card_body\<close> is the body of the \<open>try\<close>:
  it reads the image's \<open>alt\<close>, then the span's text twice, and yields the new \<open>results\<close>;
  the card is one rendering, so both reads of the text see the same answer. An empty
  string is false in Python. \<open>extract_cards\<close> is the loop with its handler (\<open>continue\<close>).
  The reads of a card's attribute and text are answered by the card and not recorded
  among the events.
\<close>

definition card_body :: "card \<Rightarrow> string option list \<Rightarrow> exn + string option list" where
  "card_body c results =
     (case img_alt c of
        Inl e \<Rightarrow> Inl e
      | Inr name \<Rightarrow>
          (case span_text c of
             Inl e \<Rightarrow> Inl e
           | Inr t1 \<Rightarrow>
               if t1 = [] then Inr results
               else
                 (case span_text c of
                    Inl e \<Rightarrow> Inl e
                  | Inr t2 \<Rightarrow>
                      if str_contains ''Status'' t2 then Inr (results @ [name])
                      else Inr results)))"

fun extract_cards :: "card list \<Rightarrow> string option list \<Rightarrow> string option list" where
  "extract_cards [] results = results"
| "extract_cards (c # rest) results =
     extract_cards rest
       (case card_body c results of Inl e \<Rightarrow> results | Inr results' \<Rightarrow> results')"

definition all_filters_button :: locator where
  "all_filters_button = ByRole ''button'' ''All filters'' False"

definition card_selector :: locator where
  "card_selector = Css ''div.presence-entity--size-3''"

definition all_locators :: "locator \<Rightarrow> card list io" where
  "all_locators l = (\<lambda>p. (cards p, p, [Call (AllLocators l)]))"

definition people_search :: "string option list io" where
  "people_search =
     io_then (print ''Searching for people.....'')
    (io_then (print ''Demonstration finished. Keeping browser open...'')
    (io_then (perform (ExpectVisible all_filters_button 3000))
    (io_then (perform (Click all_filters_button))
    (io_then (perform (Click (ByRole ''button'' ''1st'' True)))
    (io_then (perform (Click (ByRole ''button'' ''Apply current filters to show results'' True)))
    (io_then (print ''applying People Filters.....'')
    (io_then (perform (WaitForTimeout 3000))
    (io_bind (all_locators card_selector) (\<lambda>profile_cards.
     io_bind (io_return (extract_cards profile_cards [])) (\<lambda>results.
     io_then (print ''Profiles with Status found....'')
    (io_then (print_names results)
    (io_return results))))))))))))"

text \<open>
  \<open>message_person\<close> (lines 170-172). \<open>for name, link in ...\<close> unpacks each element into
  two targets: \<open>None\<close> is not iterable (\<open>TypeError\<close>), a string is iterated by
  character, so one of exactly two characters binds them to \<open>name\<close> and \<open>link\<close>, and one
  of any other length raises \<open>ValueError\<close>. The elements are those of the list
  \<open>people_search\<close> returns.
\<close>

fun unpack_pair :: "string option \<Rightarrow> exn + string \<times> string" where
  "unpack_pair None = Inl (TypeError ''cannot unpack non-iterable NoneType object'')"
| "unpack_pair (Some []) = Inl (ValueError ''not enough values to unpack (expected 2, got 0)'')"
| "unpack_pair (Some [a]) = Inl (ValueError ''not enough values to unpack (expected 2, got 1)'')"
| "unpack_pair (Some [a, b]) = Inr ([a], [b])"
| "unpack_pair (Some (a # b # c # s)) = Inl (ValueError ''too many values to unpack (expected 2)'')"

fun message_person :: "string option list \<Rightarrow> unit io" where
  "message_person [] = io_return ()"
| "message_person (x # rest) =
     (case unpack_pair x of
        Inl e \<Rightarrow> io_raise e
      | Inr (name, link) \<Rightarrow>
          io_then (print (''Ready to process: '' @ name)) (message_person rest))"

section \<open>The run\<close>

text \<open>
  \<open>browser.close()\<close>: once it has completed, every call on the page raises
  \<open>TargetClosedError\<close>. What a later \<open>pause\<close> or a second \<open>close\<close> does is left to the
  page.
\<close>

definition target_closed :: exn where
  "target_closed = TargetClosedError ''Target page, context or browser has been closed''"

definition close_page :: "page \<Rightarrow> page" where
  "close_page p =
     p\<lparr> action := (\<lambda>c. if c = Pause \<or> c = BrowserClose then action p c else Some target_closed),
        visible := (\<lambda>l. Inl target_closed),
        cards := Inl target_closed \<rparr>"

definition browser_close :: "unit io" where
  "browser_close = (\<lambda>p.
     case action p BrowserClose of
       None \<Rightarrow> (Inr (), close_page p, [Call BrowserClose])
     | Some e \<Rightarrow> (Inl e, p, [Call BrowserClose]))"

text \<open>
  The loop of \<open>main_demonstration\<close> (lines 196-200): the pause and the closing of the
  browser are inside its body.
\<close>

fun dispatch_loop :: "string option list \<Rightarrow> unit io" where
  "dispatch_loop [] = io_return ()"
| "dispatch_loop (person # rest) =
     io_then (people_message person)
    (io_then (print ''Demonstration finished. Keeping browser open...'')
    (io_then (perform Pause)
    (io_then browser_close
    (dispatch_loop rest))))"


section \<open>Observations on a run\<close>

text \<open>
  The names for which a message button was clicked, in order: the targets of the clicks
  on a button named exactly \<open>"Message " + name\<close>.
\<close>

fun message_target :: "event \<Rightarrow> string option" where
  "message_target (Call (Click (ByRole role name exact))) =
     (if role = ''button'' \<and> exact \<and> startswith ''Message '' name then Some (drop 8 name)
      else None)"
| "message_target _ = None"

fun dispatched :: "event list \<Rightarrow> string list" where
  "dispatched [] = []"
| "dispatched (ev # t) =
     (case message_target ev of None \<Rightarrow> dispatched t | Some n \<Rightarrow> n # dispatched t)"



text \<open>The cards of the data model: what a card yields as name, and its status flag.\<close>

definition name_readable :: "card \<Rightarrow> bool" where
  "name_readable c = (case img_alt c of Inl e \<Rightarrow> False | Inr n \<Rightarrow> True)"

definition displayName :: "card \<Rightarrow> string option" where
  "displayName c = (case img_alt c of Inl e \<Rightarrow> None | Inr n \<Rightarrow> n)"

definition hasActiveStatus :: "card \<Rightarrow> bool" where
  "hasActiveStatus c =
     (case span_text c of Inl e \<Rightarrow> False | Inr t \<Rightarrow> t \<noteq> [] \<and> str_contains ''Status'' t)"

definition nonempty_name :: "string option \<Rightarrow> bool" where
  "nonempty_name n = (case n of None \<Rightarrow> False | Some s \<Rightarrow> s \<noteq> [])"

definition card_fails :: "card \<Rightarrow> bool" where
  "card_fails c =
     (case img_alt c of
        Inl e \<Rightarrow> True
      | Inr n \<Rightarrow> (case span_text c of Inl e \<Rightarrow> True | Inr t \<Rightarrow> False))"

text \<open>The steps of \<open>people_search\<close> before the cards are enumerated all complete.\<close>

definition filters_applied :: "page \<Rightarrow> bool" where
  "filters_applied p \<longleftrightarrow>
     action p (ExpectVisible all_filters_button 3000) = None \<and>
     action p (Click all_filters_button) = None \<and>
     action p (Click (ByRole ''button'' ''1st'' True)) = None \<and>
     action p (Click (ByRole ''button'' ''Apply current filters to show results'' True)) = None \<and>
     action p (WaitForTimeout 3000) = None"

text \<open>What \<open>login\<close> does around the body of its \<open>try\<close>.\<close>

definition navigation_events :: "event list" where
  "navigation_events =
     [Print ''INFO: Navigating to LinkedIn login page...'', Call (Goto login_url)]"

definition failure_events :: "exn \<Rightarrow> event list" where
  "failure_events e =
     [Print ''ERROR: Login attempt failed.'',
      Print ''Check the screenshot and error message below to debug.'',
      Print (''DEBUG: The specific error was: '' @ str_exn e),
      Call (Screenshot ''login_error.png''),
      Print (''A screenshot has been saved to '' @ [CHR 0x27] @ ''login_error.png'' @ [CHR 0x27]),
      Call Pause]"

text \<open>
  Entries that unpack into two targets; the two kinds of error of an unpacking that
  fails; and the line \<open>message_person\<close> prints for an entry, with the first character as
  the name.
\<close>

definition two_chars :: "string option \<Rightarrow> bool" where
  "two_chars n = (case n of None \<Rightarrow> False | Some s \<Rightarrow> length s = 2)"

fun type_error :: "exn \<Rightarrow> bool" where
  "type_error (TypeError m) = True"
| "type_error e = False"

fun value_error :: "exn \<Rightarrow> bool" where
  "value_error (ValueError m) = True"
| "value_error e = False"

definition ready_line :: "string option \<Rightarrow> event" where
  "ready_line n =
     Print (''Ready to process: '' @ take 1 (case n of None \<Rightarrow> [] | Some s \<Rightarrow> s))"






section \<open>Example pages\<close>

definition feed_page :: page where
  "feed_page = \<lparr> url = ''https://www.linkedin.com/feed/'',
                 action = (\<lambda>c. None),
                 visible = (\<lambda>l. Inr True),
                 cards = Inr [] \<rparr>"

definition logged_out_page :: page where
  "logged_out_page = \<lparr> url = ''https://www.linkedin.com/'',
       action = (\<lambda>c. None),
       visible = (\<lambda>l. if l = join_now_link then Inr True else Inr False),
       cards = Inr [] \<rparr>"

text \<open>
  A page showing "Join now" on which the "Sign in" probe raises (two buttons carry that
  name, and a locator call on more than one element is a strict-mode violation).
\<close>

definition two_sign_in_page :: page where
  "two_sign_in_page = \<lparr> url = ''https://www.linkedin.com/'',
       action = (\<lambda>c. None),
       visible = (\<lambda>l. if l = sign_in_button
                        then Inl (Error ''strict mode violation: resolved to 2 elements'')
                        else Inr True),
       cards = Inr [] \<rparr>"

definition profile_page :: page where
  "profile_page = \<lparr> url = ''https://www.linkedin.com/in/someone/'',
       action = (\<lambda>c. None),
       visible = (\<lambda>l. Inr False),
       cards = Inr [] \<rparr>"

definition offline_page :: page where
  "offline_page = \<lparr> url = ''about:blank'',
       action = (\<lambda>c. if c = Goto login_url
                        then Some (Error ''net::ERR_INTERNET_DISCONNECTED'') else None),
       visible = (\<lambda>l. Inr False),
       cards = Inr [] \<rparr>"

definition no_messaging_page :: page where
  "no_messaging_page = \<lparr> url = ''https://www.linkedin.com/checkpoint/challenge'',
       action = (\<lambda>c. if c = ExpectVisible messaging_link 60000
                        then Some (AssertionError ''Locator expected to be visible'') else None),
       visible = (\<lambda>l. Inr False),
       cards = Inr [] \<rparr>"


definition online :: "string \<Rightarrow> string \<Rightarrow> card" where
  "online name status = \<lparr> img_alt = Inr (Some name), span_text = Inr status \<rparr>"

text \<open>Three rendered cards: Alice and Carol carry a status label, Bob's label is empty.\<close>

definition scenario_cards :: "card list" where
  "scenario_cards =
     [online ''Alice A'' ''Status is online'', online ''Bob B'' [],
      online ''Carol C'' ''Status: away'']"

definition blank_alt_card :: card where
  "blank_alt_card = \<lparr> img_alt = Inr (Some []), span_text = Inr ''Status is online'' \<rparr>"

definition no_alt_card :: card where
  "no_alt_card = \<lparr> img_alt = Inr None, span_text = Inr ''Status is online'' \<rparr>"

definition detached_card :: card where
  "detached_card = \<lparr> img_alt = Inl (TimeoutError ''Timeout 30000ms exceeded.''),
                       span_text = Inr ''Status is online'' \<rparr>"

definition results_page :: "card list \<Rightarrow> page" where
  "results_page cs = \<lparr> url = ''https://www.linkedin.com/search/results/people/'',
       action = (\<lambda>c. None),
       visible = (\<lambda>l. Inr True),
       cards = Inr cs \<rparr>"

definition scenario_page :: page where
  "scenario_page = \<lparr> url = ''https://www.linkedin.com/feed/'',
       action = (\<lambda>c. None),
       visible = (\<lambda>l. Inr False),
       cards = Inr scenario_cards \<rparr>"




text \<open>Two calls of \<open>is_logged_in\<close> in a row, with nothing in between.\<close>

definition is_logged_in_twice :: "(bool \<times> bool) io" where
  "is_logged_in_twice =
     io_bind is_logged_in (\<lambda>first.
     io_bind is_logged_in (\<lambda>second.
     io_return (first, second)))"

section \<open>Properties\<close>

lemma startswith_iff: "startswith sub s \<longleftrightarrow> (\<exists>post. s = sub @ post)"
  by (induction sub s rule: startswith.induct) auto

lemma str_contains_iff: "str_contains sub s \<longleftrightarrow> (\<exists>pre post. s = pre @ sub @ post)"
proof (induction s)
  case Nil
  then show ?case by auto
next
  case (Cons c s)
  show ?case
  proof
    assume "str_contains sub (c # s)"
    then show "\<exists>pre post. c # s = pre @ sub @ post"
      using Cons startswith_iff
      by (metis append_Cons append_Nil str_contains.simps(2))
  next
    assume "\<exists>pre post. c # s = pre @ sub @ post"
    then obtain pre post where e: "c # s = pre @ sub @ post" by blast
    show "str_contains sub (c # s)"
    proof (cases pre)
      case Nil
      have "startswith sub (c # s)"
        unfolding startswith_iff using e Nil by auto
      then show ?thesis by simp
    next
      case (Cons a pre')
      then have "s = pre' @ sub @ post" using e by simp
      then show ?thesis using Cons.IH by auto
    qed
  qed
qed

text \<open>\<open>str_contains\<close> is the library's contiguous-sublist relation.\<close>

lemma str_contains_sublist: "str_contains sub s = sublist sub s"
  by (simp add: str_contains_iff sublist_def)

subsection \<open>Running the primitives\<close>

lemma io_run:
  "io_return x p = (Inr x, p, [])"
  "io_raise e p = (Inl e, p, [])"
  "print s p = (Inr (), p, [Print s])"
  "print_names ns p = (Inr (), p, [PrintNames ns])"
  "page_url p = (Inr (url p), p, [])"
  "is_visible l n p = (visible p l, p, [Call (IsVisible l n)])"
  "all_locators l p = (cards p, p, [Call (AllLocators l)])"
  "perform c p = (case action p c of None \<Rightarrow> Inr () | Some e \<Rightarrow> Inl e, p, [Call c])"
  "io_then m k = io_bind m (\<lambda>_. k)"
  by (simp_all add: io_return_def io_raise_def print_def print_names_def page_url_def
      is_visible_def all_locators_def perform_def io_then_def)

lemma io_bind_run:
  "io_bind m f p =
     (case m p of
        (Inl e, p', t) \<Rightarrow> (Inl e, p', t)
      | (Inr x, p', t) \<Rightarrow> (case f x p' of (r, p'', t') \<Rightarrow> (r, p'', t @ t')))"
  by (simp add: io_bind_def)

lemma io_try_run:
  "io_try m h p =
     (case m p of
        (Inl e, p', t) \<Rightarrow> (case h e p' of (r, p'', t') \<Rightarrow> (r, p'', t @ t'))
      | (Inr x, p', t) \<Rightarrow> (Inr x, p', t))"
  by (simp add: io_try_def)

subsection \<open>Session state detection\<close>

text \<open>The five ways \<open>is_logged_in\<close> can go, with what each does.\<close>

lemma is_logged_in_cases:
  "is_logged_in p =
    (if str_contains ''/feed'' (url p) then
       (Inr True, p, [Print ''INFO: Currently on the feed page. User is logged in.''])
     else case visible p sign_in_button of
       Inl e \<Rightarrow> (Inr True, p, [Call (IsVisible sign_in_button 2000),
          Print ''INFO: Did not find explicit login prompts, assuming user is logged in.''])
     | Inr True \<Rightarrow> (Inr False, p, [Call (IsVisible sign_in_button 2000), Print found_line])
     | Inr False \<Rightarrow> (case visible p join_now_link of
          Inl e \<Rightarrow> (Inr True, p,
            [Call (IsVisible sign_in_button 2000), Call (IsVisible join_now_link 2000),
             Print ''INFO: Did not find explicit login prompts, assuming user is logged in.''])
        | Inr True \<Rightarrow> (Inr False, p,
            [Call (IsVisible sign_in_button 2000), Call (IsVisible join_now_link 2000),
             Print found_line])
        | Inr False \<Rightarrow> (Inr True, p,
            [Call (IsVisible sign_in_button 2000), Call (IsVisible join_now_link 2000),
             Print ''INFO: Did not find explicit login prompts, assuming user is logged in.''])))"
  by (simp add: is_logged_in_def found_line_def io_run io_bind_run io_try_run
      split: sum.splits bool.splits)

lemma is_logged_in_page: "page_after (is_logged_in p) = p"
  by (simp add: is_logged_in_cases split: sum.splits bool.splits)

lemma is_logged_in_returns: "\<exists>b. result (is_logged_in p) = Inr b"
  by (auto simp add: is_logged_in_cases split: sum.splits bool.splits)

text \<open>
  C5. On a page whose URL contains \<open>/feed\<close>, \<open>is_logged_in\<close> returns \<open>True\<close> and all it
  does is print one line: neither of the two probes is evaluated.
\<close>

theorem feed_url_short_circuits:
  "str_contains ''/feed'' (url p) \<Longrightarrow>
     is_logged_in p =
       (Inr True, p, [Print ''INFO: Currently on the feed page. User is logged in.''])"
  by (simp add: is_logged_in_cases)

theorem feed_url_short_circuits_witness:
  "str_contains ''/feed'' (url feed_page) \<and>
   is_logged_in feed_page =
     (Inr True, feed_page, [Print ''INFO: Currently on the feed page. User is logged in.''])"
proof -
  have h: "str_contains ''/feed'' (url feed_page)"
    by (simp add: feed_page_def)
  show ?thesis
    using h feed_url_short_circuits [OF h] by simp
qed

text \<open>
  C6, as stated, fails: on \<open>two_sign_in_page\<close>, which is not on the feed URL and shows
  "Join now", the "Sign in" probe raises, the handler swallows the exception before the
  "Join now" probe is reached, and \<open>is_logged_in\<close> returns \<open>True\<close>.
\<close>

theorem visible_join_now_behind_raising_probe:
  "\<not> str_contains ''/feed'' (url two_sign_in_page) \<and>
   visible two_sign_in_page join_now_link = Inr True \<and>
   result (is_logged_in two_sign_in_page) = Inr True"
  by (simp add: is_logged_in_cases two_sign_in_page_def sign_in_button_def join_now_link_def)

text \<open>
  C6, amended. On a page not on the feed URL, if the "Sign in" probe answers visible, or
  it answers not visible and the "Join now" probe answers visible, \<open>is_logged_in\<close>
  returns \<open>False\<close>.
\<close>

theorem logged_out_affordance_detected:
  assumes "\<not> str_contains ''/feed'' (url p)"
    and "visible p sign_in_button = Inr True \<or>
         (visible p sign_in_button = Inr False \<and> visible p join_now_link = Inr True)"
  shows "result (is_logged_in p) = Inr False"
  using assms by (auto simp add: is_logged_in_cases)

theorem logged_out_affordance_detected_witness:
  "\<not> str_contains ''/feed'' (url logged_out_page) \<and>
   visible logged_out_page sign_in_button = Inr False \<and>
   visible logged_out_page join_now_link = Inr True \<and>
   result (is_logged_in logged_out_page) = Inr False"
proof -
  have a: "\<not> str_contains ''/feed'' (url logged_out_page)"
    by (simp add: logged_out_page_def)
  have b: "visible logged_out_page sign_in_button = Inr False \<and>
           visible logged_out_page join_now_link = Inr True"
    by (simp add: logged_out_page_def sign_in_button_def join_now_link_def)
  from b have c: "visible logged_out_page sign_in_button = Inr True \<or>
         (visible logged_out_page sign_in_button = Inr False \<and>
          visible logged_out_page join_now_link = Inr True)" by simp
  show ?thesis
    using a b logged_out_affordance_detected [OF a c] by simp
qed

text \<open>
  C7. \<open>is_logged_in\<close> always returns a value, never an exception. On a page not on the
  feed URL, if a probe raises (the "Sign in" probe, or the "Join now" probe after "Sign
  in" answered not visible), or both probes answer not visible, it returns \<open>True\<close>.
\<close>

theorem fail_open_default:
  "(\<exists>b. result (is_logged_in p) = Inr b) \<and>
   (\<not> str_contains ''/feed'' (url p) \<longrightarrow>
      ((\<exists>e. visible p sign_in_button = Inl e) \<or>
       (visible p sign_in_button = Inr False \<and>
          ((\<exists>e. visible p join_now_link = Inl e) \<or> visible p join_now_link = Inr False))) \<longrightarrow>
      result (is_logged_in p) = Inr True)"
  by (auto simp add: is_logged_in_cases split: sum.splits bool.splits)

theorem fail_open_default_witness:
  "\<not> str_contains ''/feed'' (url profile_page) \<and>
   visible profile_page sign_in_button = Inr False \<and>
   visible profile_page join_now_link = Inr False \<and>
   result (is_logged_in profile_page) = Inr True"
proof -
  have a: "\<not> str_contains ''/feed'' (url profile_page)"
    by (simp add: profile_page_def)
  have b: "visible profile_page sign_in_button = Inr False \<and>
           visible profile_page join_now_link = Inr False"
    by (simp add: profile_page_def)
  show ?thesis
    using a b fail_open_default [of profile_page] by simp
qed

text \<open>
  C9. \<open>is_logged_in\<close> leaves the page as it found it, so a second call right after the
  first sees the same page, and both calls return the same value.
\<close>

theorem detect_twice_same_state:
  "page_after (is_logged_in p) = p \<and>
   (\<exists>b. result (is_logged_in p) = Inr b \<and>
        result (is_logged_in_twice p) = Inr (b, b) \<and>
        page_after (is_logged_in_twice p) = p)"
proof -
  obtain b where b: "result (is_logged_in p) = Inr b"
    using is_logged_in_returns by blast
  obtain t where t: "is_logged_in p = (Inr b, p, t)"
    using b is_logged_in_page [of p] by (cases "is_logged_in p") auto
  have "is_logged_in_twice p = (Inr (b, b), p, t @ t)"
    by (simp add: is_logged_in_twice_def io_bind_run t io_run)
  with t show ?thesis by simp
qed

theorem detect_twice_same_state_witness:
  "result (is_logged_in feed_page) = Inr True \<and>
   result (is_logged_in_twice feed_page) = Inr (True, True) \<and>
   page_after (is_logged_in_twice feed_page) = feed_page"
proof -
  have "result (is_logged_in feed_page) = Inr True"
    by (simp add: is_logged_in_cases feed_page_def)
  then show ?thesis
    using detect_twice_same_state [of feed_page] by auto
qed

subsection \<open>Login\<close>

lemma login_steps_page: "page_after (login_steps email password p) = p"
  by (simp add: login_steps_def io_run io_bind_run split: option.splits)

lemma login_failed_ok:
  "action p (Screenshot ''login_error.png'') = None \<Longrightarrow> action p Pause = None \<Longrightarrow>
     login_failed e p = (Inr False, p, failure_events e)"
  by (simp add: login_failed_def failure_events_def screenshot_path_def io_run io_bind_run)

lemma login_run:
  "login email password p =
     (case action p (Goto login_url) of
        Some e \<Rightarrow> (Inl e, p, navigation_events)
      | None \<Rightarrow>
          (case login_steps email password p of
             (Inr b, p', t) \<Rightarrow> (Inr b, p', navigation_events @ t)
           | (Inl e, p', t) \<Rightarrow>
               (case login_failed e p' of
                  (r, p'', t') \<Rightarrow> (r, p'', navigation_events @ t @ t'))))"
  by (simp add: login_def navigation_events_def io_run io_bind_run io_try_run
      split: option.splits sum.splits prod.splits)

lemma login_steps_no_messaging:
  assumes "action p (WaitFor email_field 10000) = None"
    and "action p (Fill email_field email) = None"
    and "action p (Fill password_field password) = None"
    and "action p (Click sign_in_button) = None"
    and "action p (ExpectVisible messaging_link 60000) = Some e"
  shows "result (login_steps email password p) = Inl e"
  using assms by (simp add: login_steps_def io_run io_bind_run)

text \<open>
  C3, as stated, fails: the navigation to the login page is a step of the login sequence,
  and it is issued before the \<open>try\<close> opens. On \<open>offline_page\<close> it raises; \<open>login\<close> ends
  with that exception, and neither takes a screenshot nor pauses nor returns \<open>False\<close>.
\<close>

theorem navigation_failure_propagates:
  "login ''user@example.com'' ''hunter2'' offline_page =
     (Inl (Error ''net::ERR_INTERNET_DISCONNECTED''), offline_page,
      [Print ''INFO: Navigating to LinkedIn login page...'', Call (Goto login_url)])"
  by (simp add: login_run navigation_events_def offline_page_def)

text \<open>
  C3, amended. When the navigation completes, and the screenshot and the pause of the
  handler complete: any exception raised by a step after the navigation is caught, the
  handler prints the error, takes the screenshot to \<open>login_error.png\<close>, pauses, and
  \<open>login\<close> returns \<open>False\<close>. In particular, when the fills and the click complete and
  the wait for the "Messaging" link raises, \<open>login\<close> returns \<open>False\<close> and the screenshot
  was taken.
\<close>

theorem login_failure_handled:
  assumes "action p (Goto login_url) = None"
    and "action p (Screenshot ''login_error.png'') = None"
    and "action p Pause = None"
  shows "(\<forall>e. result (login_steps email password p) = Inl e \<longrightarrow>
            result (login email password p) = Inr False \<and>
            events (login email password p) =
              navigation_events @ events (login_steps email password p) @ failure_events e)
       \<and> (\<forall>e. action p (WaitFor email_field 10000) = None \<and>
              action p (Fill email_field email) = None \<and>
              action p (Fill password_field password) = None \<and>
              action p (Click sign_in_button) = None \<and>
              action p (ExpectVisible messaging_link 60000) = Some e \<longrightarrow>
            result (login email password p) = Inr False \<and>
            Call (Screenshot ''login_error.png'') \<in> set (events (login email password p)))"
proof -
  have caught: "result (login email password p) = Inr False \<and>
            events (login email password p) =
              navigation_events @ events (login_steps email password p) @ failure_events e"
    if "result (login_steps email password p) = Inl e" for e
  proof -
    define t where "t = events (login_steps email password p)"
    have t: "login_steps email password p = (Inl e, p, t)"
      using that login_steps_page [of email password p] by (simp add: prod_eq_iff t_def)
    show ?thesis
      by (simp add: login_run assms t login_failed_ok)
  qed
  have "Call (Screenshot ''login_error.png'') \<in> set (failure_events e)" for e
    by (simp add: failure_events_def)
  with caught login_steps_no_messaging show ?thesis
    by (metis UnCI set_append)
qed

theorem login_failure_handled_witness:
  "action no_messaging_page (Goto login_url) = None \<and>
   action no_messaging_page (Screenshot ''login_error.png'') = None \<and>
   action no_messaging_page Pause = None \<and>
   action no_messaging_page (WaitFor email_field 10000) = None \<and>
   action no_messaging_page (Fill email_field ''user@example.com'') = None \<and>
   action no_messaging_page (Fill password_field ''hunter2'') = None \<and>
   action no_messaging_page (Click sign_in_button) = None \<and>
   action no_messaging_page (ExpectVisible messaging_link 60000) =
     Some (AssertionError ''Locator expected to be visible'') \<and>
   result (login_steps ''user@example.com'' ''hunter2'' no_messaging_page) =
     Inl (AssertionError ''Locator expected to be visible'') \<and>
   result (login ''user@example.com'' ''hunter2'' no_messaging_page) = Inr False \<and>
   Call (Screenshot ''login_error.png'')
     \<in> set (events (login ''user@example.com'' ''hunter2'' no_messaging_page))"
proof -
  have a: "action no_messaging_page (Goto login_url) = None"
    and b: "action no_messaging_page (Screenshot ''login_error.png'') = None"
    and c: "action no_messaging_page Pause = None"
    by (simp_all add: no_messaging_page_def)
  have d: "action no_messaging_page (WaitFor email_field 10000) = None \<and>
   action no_messaging_page (Fill email_field ''user@example.com'') = None \<and>
   action no_messaging_page (Fill password_field ''hunter2'') = None \<and>
   action no_messaging_page (Click sign_in_button) = None \<and>
   action no_messaging_page (ExpectVisible messaging_link 60000) =
     Some (AssertionError ''Locator expected to be visible'')"
    by (simp add: no_messaging_page_def)
  have e: "result (login_steps ''user@example.com'' ''hunter2'' no_messaging_page) =
     Inl (AssertionError ''Locator expected to be visible'')"
    using d by (simp add: login_steps_no_messaging)
  show ?thesis
    using a b c d e login_failure_handled [OF a b c, of "''user@example.com''" "''hunter2''"]
    by blast
qed

subsection \<open>The extraction pass\<close>

lemma card_step:
  "(case card_body c results of Inl e \<Rightarrow> results | Inr results' \<Rightarrow> results') =
     (if name_readable c \<and> hasActiveStatus c then results @ [displayName c] else results)"
  by (simp add: card_body_def name_readable_def hasActiveStatus_def displayName_def
      split: sum.splits)

lemma extract_cards_acc:
  "extract_cards cs results =
     results @ map displayName (filter (\<lambda>c. name_readable c \<and> hasActiveStatus c) cs)"
proof (induction cs arbitrary: results)
  case Nil
  then show ?case by simp
next
  case (Cons c cs)
  show ?case
    by (simp only: extract_cards.simps card_step Cons.IH) simp
qed

lemma card_fails_step:
  "card_fails c \<Longrightarrow> \<not> (name_readable c \<and> hasActiveStatus c)"
  by (auto simp add: card_fails_def name_readable_def hasActiveStatus_def split: sum.splits)

lemma people_search_run:
  "filters_applied p \<Longrightarrow> cards p = Inr cs \<Longrightarrow>
     result (people_search p) = Inr (extract_cards cs []) \<and> page_after (people_search p) = p"
  by (simp add: people_search_def filters_applied_def io_run io_bind_run)

lemma people_search_result:
  "result (people_search p) = Inr ns \<Longrightarrow> \<exists>cs. cards p = Inr cs \<and> ns = extract_cards cs []"
  by (simp add: people_search_def io_run io_bind_run split: option.splits sum.splits)

text \<open>
  C1, as stated, fails: nothing in the pass looks at the name it read. A card with a
  status label whose image has an empty \<open>alt\<close>, or no \<open>alt\<close> at all, is returned, with
  the empty string or \<open>None\<close> as its entry.
\<close>

theorem blank_name_is_returned:
  "hasActiveStatus blank_alt_card \<and> hasActiveStatus no_alt_card \<and>
   extract_cards [blank_alt_card, no_alt_card] [] = [Some [], None] \<and>
   result (people_search (results_page [blank_alt_card, no_alt_card])) = Inr [Some [], None]"
  by (simp add: people_search_def io_run io_bind_run results_page_def all_filters_button_def
      blank_alt_card_def no_alt_card_def card_body_def hasActiveStatus_def)

text \<open>
  C1, amended. The pass returns, in render order, the \<open>alt\<close> value of exactly those cards
  whose \<open>alt\<close> read does not raise and whose status text is non-empty and contains
  "Status", and this is what \<open>people_search\<close> returns; a card whose name read raises is
  dropped. The value is returned as read: every returned entry is a non-empty name
  exactly when every such card has a non-empty \<open>alt\<close>.
\<close>

theorem extract_is_status_subsequence:
  "extract_cards cs [] =
     map displayName (filter (\<lambda>c. name_readable c \<and> hasActiveStatus c) cs) \<and>
   (\<forall>ns. result (people_search p) = Inr ns \<longrightarrow>
      (\<exists>cs'. cards p = Inr cs' \<and>
         ns = map displayName (filter (\<lambda>c. name_readable c \<and> hasActiveStatus c) cs'))) \<and>
   ((\<forall>n \<in> set (extract_cards cs []). nonempty_name n) \<longleftrightarrow>
    (\<forall>c \<in> set cs. name_readable c \<and> hasActiveStatus c \<longrightarrow> nonempty_name (displayName c)))"
proof -
  have a: "extract_cards cs' [] =
        map displayName (filter (\<lambda>c. name_readable c \<and> hasActiveStatus c) cs')" for cs'
    by (simp add: extract_cards_acc)
  have b: "\<exists>cs'. cards p = Inr cs' \<and>
         ns = map displayName (filter (\<lambda>c. name_readable c \<and> hasActiveStatus c) cs')"
    if "result (people_search p) = Inr ns" for ns
    using people_search_result [OF that] a by auto
  have c: "(\<forall>n \<in> set (extract_cards cs []). nonempty_name n) \<longleftrightarrow>
    (\<forall>c \<in> set cs. name_readable c \<and> hasActiveStatus c \<longrightarrow> nonempty_name (displayName c))"
    by (auto simp add: a)
  from a b c show ?thesis by blast
qed

theorem extract_is_status_subsequence_witness:
  "result (people_search (results_page scenario_cards)) =
     Inr [Some ''Alice A'', Some ''Carol C''] \<and>
   extract_cards scenario_cards [] = [Some ''Alice A'', Some ''Carol C''] \<and>
   nonempty_name (Some ''Alice A'') \<and> nonempty_name (Some ''Carol C'')"
proof -
  have e: "map displayName (filter (\<lambda>c. name_readable c \<and> hasActiveStatus c) scenario_cards) =
       [Some ''Alice A'', Some ''Carol C'']"
    by (simp add: scenario_cards_def online_def name_readable_def hasActiveStatus_def
        displayName_def)
  have r: "result (people_search (results_page scenario_cards)) =
       Inr (extract_cards scenario_cards [])"
    by (rule people_search_run [THEN conjunct1])
       (simp_all add: filters_applied_def results_page_def)
  have h: "\<forall>c \<in> set scenario_cards.
       name_readable c \<and> hasActiveStatus c \<longrightarrow> nonempty_name (displayName c)"
    by (simp add: scenario_cards_def online_def name_readable_def hasActiveStatus_def
        displayName_def nonempty_name_def)
  show ?thesis
    using e r h extract_is_status_subsequence [of scenario_cards "results_page scenario_cards"]
    by simp
qed

text \<open>
  C8. A card on which a read raises contributes nothing and stops nothing: the pass over
  the cards gives what it gives without that card, and \<open>people_search\<close>, its filter
  steps done, returns that list and no exception.
\<close>

theorem card_failure_isolated:
  "(card_fails c \<longrightarrow>
      extract_cards (before @ c # after) results = extract_cards (before @ after) results) \<and>
   (card_fails c \<and> filters_applied p \<and> cards p = Inr (before @ c # after) \<longrightarrow>
      result (people_search p) = Inr (extract_cards (before @ after) []))"
proof -
  have a: "extract_cards (before @ c # after) results = extract_cards (before @ after) results"
    if "card_fails c" for results
    using card_fails_step [OF that] by (simp add: extract_cards_acc)
  show ?thesis
    using a people_search_run by auto
qed

theorem card_failure_isolated_witness:
  "card_fails detached_card \<and>
   filters_applied (results_page (scenario_cards @ detached_card # scenario_cards)) \<and>
   cards (results_page (scenario_cards @ detached_card # scenario_cards)) =
     Inr (scenario_cards @ detached_card # scenario_cards) \<and>
   extract_cards (scenario_cards @ detached_card # scenario_cards) [] =
     extract_cards (scenario_cards @ scenario_cards) [] \<and>
   result (people_search (results_page (scenario_cards @ detached_card # scenario_cards))) =
     Inr [Some ''Alice A'', Some ''Carol C'', Some ''Alice A'', Some ''Carol C'']"
proof -
  have f: "card_fails detached_card"
    by (simp add: card_fails_def detached_card_def)
  have g: "filters_applied (results_page (scenario_cards @ detached_card # scenario_cards))"
    by (simp add: filters_applied_def results_page_def)
  have c: "cards (results_page (scenario_cards @ detached_card # scenario_cards)) =
       Inr (scenario_cards @ detached_card # scenario_cards)"
    by (simp add: results_page_def)
  have e: "extract_cards (scenario_cards @ scenario_cards) [] =
      [Some ''Alice A'', Some ''Carol C'', Some ''Alice A'', Some ''Carol C'']"
    by (simp add: scenario_cards_def online_def card_body_def)
  show ?thesis
    using f g c e
      card_failure_isolated [of detached_card scenario_cards scenario_cards "[]"
         "results_page (scenario_cards @ detached_card # scenario_cards)"]
    by simp
qed

subsection \<open>The shape \<open>message_person\<close> expects\<close>

lemma unpack_pair_two_chars:
  "two_chars n \<Longrightarrow> \<exists>a b. n = Some [a, b] \<and> unpack_pair n = Inr ([a], [b])"
  by (cases n rule: unpack_pair.cases) (simp_all add: two_chars_def)

lemma unpack_pair_bad:
  "\<not> two_chars n \<Longrightarrow>
     \<exists>e. unpack_pair n = Inl e \<and> (n = None \<longrightarrow> type_error e) \<and> (n \<noteq> None \<longrightarrow> value_error e)"
  by (cases n rule: unpack_pair.cases) (simp_all add: two_chars_def)

text \<open>
  \<open>message_person\<close> prints a line for each entry before the first that does not unpack,
  and ends there with that entry's error; the page is left as it is.
\<close>

lemma message_person_run:
  "message_person ns p =
     (case find (\<lambda>n. \<not> two_chars n) ns of
        None \<Rightarrow> Inr ()
      | Some n \<Rightarrow> (case unpack_pair n of Inl e \<Rightarrow> Inl e | Inr v \<Rightarrow> Inr ()),
      p, map ready_line (takeWhile two_chars ns))"
proof (induction ns)
  case Nil
  then show ?case by (simp add: io_run)
next
  case (Cons n ns)
  show ?case
  proof (cases "two_chars n")
    case True
    then obtain a b where n: "n = Some [a, b]" "unpack_pair n = Inr ([a], [b])"
      using unpack_pair_two_chars by blast
    then show ?thesis
      using True Cons.IH
      by (simp add: io_run io_bind_run ready_line_def)
  next
    case False
    then obtain e where "unpack_pair n = Inl e"
      using unpack_pair_bad by blast
    then show ?thesis
      using False by (simp add: io_run)
  qed
qed

text \<open>
  C10, as stated, fails: a Python string is itself iterable, and one of exactly two
  characters unpacks into two targets. On a page with one card named "Al",
  \<open>people_search\<close> returns the non-empty list \<open>['Al']\<close>, and \<open>message_person\<close> on it
  raises nothing: it prints "Ready to process: A" and returns.
\<close>

theorem two_letter_name_unpacks:
  "result (people_search (results_page [online ''Al'' ''Status is online''])) =
     Inr [Some ''Al''] \<and>
   message_person [Some ''Al''] (results_page [online ''Al'' ''Status is online'']) =
     (Inr (), results_page [online ''Al'' ''Status is online''],
      [Print ''Ready to process: A''])"
  by (simp add: people_search_def io_run io_bind_run results_page_def online_def card_body_def
      all_filters_button_def)

text \<open>
  C10, amended. \<open>people_search\<close> returns plain names (or \<open>None\<close>), never pairs.
  \<open>message_person\<close> unpacks each entry into \<open>(name, link)\<close>: a string of exactly two
  characters gives its first character as \<open>name\<close> and its second as \<open>link\<close>. On a list
  whose entries all have exactly two characters it returns normally, having printed
  "Ready to process: " and the first character for each entry, in order. Otherwise it
  prints those lines for the entries before the first that is not a two-character string
  and raises there: \<open>TypeError\<close> when that entry is \<open>None\<close>, \<open>ValueError\<close> when it is a
  string. So it raises exactly when some entry is not a string of exactly two characters.
\<close>

theorem message_person_unpacking:
  "(\<forall>a b. unpack_pair (Some [a, b]) = Inr ([a], [b])) \<and>
   (list_all two_chars ns \<longrightarrow> message_person ns p = (Inr (), p, map ready_line ns)) \<and>
   (\<forall>bad. find (\<lambda>n. \<not> two_chars n) ns = Some bad \<longrightarrow>
      (\<exists>e. message_person ns p = (Inl e, p, map ready_line (takeWhile two_chars ns)) \<and>
           (bad = None \<longrightarrow> type_error e) \<and> (bad \<noteq> None \<longrightarrow> value_error e))) \<and>
   ((\<exists>e. result (message_person ns p) = Inl e) \<longleftrightarrow> \<not> list_all two_chars ns)"
proof -
  have none: "find (\<lambda>n. \<not> two_chars n) ns = None" if "list_all two_chars ns"
    using that by (simp add: find_None_iff list_all_iff)
  have all: "takeWhile two_chars ns = ns" if "list_all two_chars ns"
    using that by (simp add: list_all_iff)
  have a: "message_person ns p = (Inr (), p, map ready_line ns)" if "list_all two_chars ns"
    using that by (simp add: message_person_run none all)
  have b: "\<exists>e. message_person ns p = (Inl e, p, map ready_line (takeWhile two_chars ns)) \<and>
           (bad = None \<longrightarrow> type_error e) \<and> (bad \<noteq> None \<longrightarrow> value_error e)"
    if "find (\<lambda>n. \<not> two_chars n) ns = Some bad" for bad
  proof -
    have "\<not> two_chars bad"
      using that by (auto simp add: find_Some_iff)
    from unpack_pair_bad [OF this] obtain e where
      "unpack_pair bad = Inl e" "bad = None \<longrightarrow> type_error e" "bad \<noteq> None \<longrightarrow> value_error e"
      by blast
    then show ?thesis
      by (simp add: message_person_run that)
  qed
  have c: "(\<exists>e. result (message_person ns p) = Inl e) \<longleftrightarrow> \<not> list_all two_chars ns"
  proof (cases "find (\<lambda>n. \<not> two_chars n) ns")
    case None
    then have "list_all two_chars ns"
      by (simp add: find_None_iff list_all_iff)
    then show ?thesis using a by simp
  next
    case (Some bad)
    then have "find (\<lambda>n. \<not> two_chars n) ns \<noteq> None" by simp
    then have "\<not> list_all two_chars ns"
      by (auto simp add: find_None_iff list_all_iff)
    then show ?thesis using b [OF Some] by auto
  qed
  from a b c show ?thesis by simp
qed

theorem message_person_unpacking_witness:
  "list_all two_chars [Some ''Al'', Some ''Bo''] \<and>
   message_person [Some ''Al'', Some ''Bo''] scenario_page =
     (Inr (), scenario_page, [Print ''Ready to process: A'', Print ''Ready to process: B'']) \<and>
   find (\<lambda>n. \<not> two_chars n) [Some ''Al'', Some ''Alice A''] = Some (Some ''Alice A'') \<and>
   message_person [Some ''Al'', Some ''Alice A''] scenario_page =
     (Inl (ValueError ''too many values to unpack (expected 2)''), scenario_page,
      [Print ''Ready to process: A'']) \<and>
   find (\<lambda>n. \<not> two_chars n) [None] = Some None \<and>
   message_person [None] scenario_page =
     (Inl (TypeError ''cannot unpack non-iterable NoneType object''), scenario_page, [])"
proof -
  have a: "list_all two_chars [Some ''Al'', Some ''Bo'']"
    and b: "find (\<lambda>n. \<not> two_chars n) [Some ''Al'', Some ''Alice A''] = Some (Some ''Alice A'')"
    and c: "find (\<lambda>n. \<not> two_chars n) [None] = Some None"
    by (simp_all add: two_chars_def)
  have d: "message_person [Some ''Al'', Some ''Alice A''] scenario_page =
     (Inl (ValueError ''too many values to unpack (expected 2)''), scenario_page,
      [Print ''Ready to process: A''])"
    by (simp add: io_run io_bind_run)
  have e: "message_person [None] scenario_page =
     (Inl (TypeError ''cannot unpack non-iterable NoneType object''), scenario_page, [])"
    by (simp add: io_run)
  have "message_person [Some ''Al'', Some ''Bo''] scenario_page =
      (Inr (), scenario_page, map ready_line [Some ''Al'', Some ''Bo''])"
    using a message_person_unpacking [of "[Some ''Al'', Some ''Bo'']" scenario_page] by blast
  then have f: "message_person [Some ''Al'', Some ''Bo''] scenario_page =
     (Inr (), scenario_page, [Print ''Ready to process: A'', Print ''Ready to process: B''])"
    by (simp add: ready_line_def)
  from a b c d e f show ?thesis by blast
qed

subsection \<open>Dispatch\<close>































text \<open>
  The body of the loop closes the browser before the next entry is taken: when the first
  click, the pause and the close complete, the click for the second entry is issued on
  the closed page and raises, and no later entry is reached.
\<close>

lemma browser_closed_inside_loop:
  assumes "action p (Click (ByRole ''button'' (''Message '' @ a) True)) = None"
    and "action p Pause = None"
    and "action p BrowserClose = None"
  shows "result (dispatch_loop (Some a # Some b # rest) p) = Inl target_closed \<and>
         dispatched (events (dispatch_loop (Some a # Some b # rest) p)) = [a, b]"
  using assms
  by (simp add: people_message_def io_run io_bind_run browser_close_def close_page_def)




subsection \<open>Credentials\<close>




























end
